theory Spec2Isabelle
  imports Complex_Main "HOL-Library.Multiset"
begin

section \<open>Python preliminaries\<close>

text \<open>
  Durations are Python floats in the source; they are modelled as exact rationals, so
  the rounding of float arithmetic (and of the encoder) is abstracted away.
  Exceptions are values of \<open>py_error\<close>; a fallible function returns
  \<open>py_error + 'a\<close> with \<open>Inl\<close> for the raised exception.
\<close>

datatype py_error = ZeroDivisionError | IndexError | IOError | RecursionError

text \<open>Python's \<open>int(x)\<close> on a float truncates towards zero.\<close>

definition py_int :: "rat \<Rightarrow> int" where
  "py_int x = (if 0 \<le> x then \<lfloor>x\<rfloor> else \<lceil>x\<rceil>)"

text \<open>
  \<open>random.choice(seq)\<close> raises IndexError on an empty sequence and otherwise returns
  one of its elements. The random source is explicit: a number \<open>rnd\<close> selects the
  element, and every element of the sequence is selected by some \<open>rnd\<close>.
\<close>

definition pick :: "nat \<Rightarrow> 'a list \<Rightarrow> 'a" where
  "pick rnd xs = xs ! (rnd mod length xs)"

definition random_choice :: "nat \<Rightarrow> 'a list \<Rightarrow> py_error + 'a" where
  "random_choice rnd xs = (if xs = [] then Inl IndexError else Inr (pick rnd xs))"

text \<open>
  A run draws its random numbers from a list, one per call of \<open>random.choice\<close>
  (zero once the list is used up).
\<close>

definition draw :: "nat list \<Rightarrow> nat" where
  "draw rnds = (case rnds of [] \<Rightarrow> 0 | r # _ \<Rightarrow> r)"

text \<open>What the functions log through \<open>logger.warning\<close> and \<open>logger.error\<close>.\<close>

datatype log_entry =
    Close_failed py_error
  | Process_failed string py_error
  | No_clips
  | Merge_failed py_error
  | Audio_failed py_error
  | Low_resolution nat nat

section \<open>close_clip\<close>

text \<open>
  Clips are objects on a heap, addressed by their position in it, so that
  \<open>child_clip is not clip\<close> is a comparison of addresses. An attribute of an object
  is absent (\<open>hasattr\<close> is false), \<open>None\<close>, or holds a value. A reader is
  identified by a number; the audio and the mask of a clip are objects of which only the
  \<open>reader\<close> attribute is looked at. \<open>clips\<close> is the child list of a composite
  clip, each child a handle: \<open>None\<close> or the address of a clip.
\<close>

datatype 'a attr = Absent | Is_None | Has 'a

record clip_obj =
  reader :: "nat attr"
  audio :: "nat attr attr"
  mask :: "nat attr attr"
  clips :: "nat option list option"

definition bare_obj :: clip_obj where
  "bare_obj = \<lparr>reader = Absent, audio = Absent, mask = Absent, clips = None\<rparr>"

text \<open>
  \<open>closed\<close> lists the readers on which \<open>close()\<close> has returned, in the order of
  the calls; \<open>errors\<close> is what \<open>logger.error\<close> received.
\<close>

record reclaim_state =
  heap :: "clip_obj list"
  closed :: "nat list"
  errors :: "log_entry list"

definition obj_at :: "clip_obj list \<Rightarrow> nat \<Rightarrow> clip_obj" where
  "obj_at h i = (if i < length h then h ! i else bare_obj)"

text \<open>\<open>reader.close()\<close> raises for the readers listed in \<open>fails\<close>.\<close>

definition close_reader :: "nat list \<Rightarrow> nat \<Rightarrow> reclaim_state \<Rightarrow> py_error option \<times> reclaim_state" where
  "close_reader fails r st =
     (if r \<in> set fails then (Some IOError, st) else (None, st\<lparr>closed := closed st @ [r]\<rparr>))"

text \<open>\<open>if hasattr(x, 'reader') and x.reader is not None: x.reader.close()\<close>\<close>

definition close_reader_attr :: "nat list \<Rightarrow> nat attr \<Rightarrow> reclaim_state \<Rightarrow> py_error option \<times> reclaim_state" where
  "close_reader_attr fails a st = (case a of Has r \<Rightarrow> close_reader fails r st | _ \<Rightarrow> (None, st))"




text \<open>
  The readers that a clip holds itself: its own, that of its audio and that of its mask,
  in the order in which \<open>close_clip\<close> closes them.
\<close>

fun attr_value :: "'a attr \<Rightarrow> 'a list" where
  "attr_value (Has x) = [x]"
| "attr_value _ = []"


text \<open>
  What the release never undoes between two states: the heap keeps its objects, an object
  keeps its reader and keeps having or not having a child list, and the list of closed
  readers and the log only grow.
\<close>

definition grows :: "reclaim_state \<Rightarrow> reclaim_state \<Rightarrow> bool" where
  "grows st st' =
     (length (heap st') = length (heap st)
      \<and> (\<forall>j. reader (obj_at (heap st') j) = reader (obj_at (heap st) j))
      \<and> (\<forall>j. (clips (obj_at (heap st') j) = None) = (clips (obj_at (heap st) j) = None))
      \<and> (\<exists>c. closed st' = closed st @ c)
      \<and> (\<exists>e. errors st' = errors st @ e))"

section \<open>get_bgm_file\<close>

text \<open>
  \<open>path_exists\<close> stands for \<open>os.path.exists\<close> and \<open>song_files\<close> for the result of
  \<open>glob.glob(os.path.join(utils.song_dir(), "*.mp3"))\<close>.
\<close>

definition get_bgm_file ::
  "(string \<Rightarrow> bool) \<Rightarrow> string list \<Rightarrow> nat \<Rightarrow> string \<Rightarrow> string \<Rightarrow> py_error + string" where
  "get_bgm_file path_exists song_files rnd bgm_type bgm_file =
     (if bgm_type = [] then Inr []
      else if bgm_file \<noteq> [] \<and> path_exists bgm_file then Inr bgm_file
      else if bgm_type = ''random'' then random_choice rnd song_files
      else Inr [])"

section \<open>combine_videos\<close>

text \<open>
  A processed sub-clip is written to \<open>clip_{i}_{start_time}.mp4\<close> in the temporary
  directory; its path is modelled by the pair of the index \<open>i\<close> of the source and the
  start time. The world outside the function is a record: the readable video sources with
  their duration, width and height (\<open>VideoFileClip\<close> raises on any other path), the
  readable audio files with their duration, the sub-clips whose \<open>write_videofile\<close>
  raises, the merge batches (by their first index) that raise, and whether the final write
  raises.
\<close>

type_synonym clip_path = "nat \<times> rat"

record media =
  videos :: "(string \<times> rat \<times> nat \<times> nat) list"
  audios :: "(string \<times> rat) list"
  write_fails :: "clip_path list"
  merge_fails :: "nat list"
  final_fails :: bool

datatype video_concat_mode = Random | Sequential

text \<open>
  The state of the processing loop: \<open>processed_clip_paths\<close> (the field
  \<open>processed\<close>), the accumulated \<open>video_duration\<close> (the field
  \<open>total_duration\<close>), the files written to the temporary directory with the
  duration of each, and the log.
\<close>

record clip_state =
  processed :: "clip_path list"
  total_duration :: rat
  temp_files :: "(clip_path \<times> rat) list"
  logged :: "log_entry list"

text \<open>
  The size of the resized clip inside the target canvas. The divisions are float divisions
  and raise on a zero divisor.
\<close>

definition fit_size :: "nat \<Rightarrow> nat \<Rightarrow> nat \<Rightarrow> nat \<Rightarrow> py_error + int \<times> int" where
  "fit_size clip_w clip_h video_width video_height =
     (if clip_h = 0 \<or> video_height = 0 then Inl ZeroDivisionError
      else if (of_nat clip_w :: rat) / of_nat clip_h > of_nat video_width / of_nat video_height then
        (if clip_w = 0 then Inl ZeroDivisionError
         else Inr (int video_width, py_int (of_nat clip_h * (of_nat video_width / of_nat clip_w))))
      else Inr (py_int (of_nat clip_w * (of_nat video_height / of_nat clip_h)), int video_height))"

text \<open>
  The \<open>while start_time < clip_duration\<close> loop over one source, with index \<open>i\<close>.
  Each round cuts the sub-clip from \<open>start_time\<close> to \<open>end_time\<close>, writes it
  (its duration is \<open>end_time - start_time\<close>), appends its path and adds its duration
  to \<open>video_duration\<close>; under sequential mode the loop is left after the first
  round. A raise leaves the loop with what was appended so far. The loop does not end when
  \<open>max_clip_duration\<close> is not positive: not returning is the value \<open>None\<close>.
\<close>

partial_function (option) split_loop ::
  "clip_path list \<Rightarrow> video_concat_mode \<Rightarrow> rat \<Rightarrow> rat \<Rightarrow> nat \<Rightarrow> rat \<Rightarrow> clip_state
     \<Rightarrow> (py_error option \<times> clip_state) option" where
  "split_loop fails video_concat_mode max_clip_duration clip_duration i start_time st =
     (if start_time < clip_duration then
        (let end_time = min (start_time + max_clip_duration) clip_duration;
             temp_clip_path = (i, start_time)
         in if temp_clip_path \<in> set fails then Some (Some IOError, st)
            else
              (let st' = st\<lparr>processed := processed st @ [temp_clip_path],
                            total_duration := total_duration st + (end_time - start_time),
                            temp_files := temp_files st @ [(temp_clip_path, end_time - start_time)]\<rparr>
               in if video_concat_mode = Sequential then Some (None, st')
                  else split_loop fails video_concat_mode max_clip_duration clip_duration i end_time st'))
      else Some (None, st))"

declare split_loop.simps [code]

text \<open>
  What the specification expects of the loop for a source of duration \<open>D\<close> and a
  maximum clip duration \<open>m\<close>: \<open>ceil(D / m)\<close> sub-clips, each of length \<open>m\<close>
  except the last, of length \<open>D mod m\<close>, or \<open>m\<close> when \<open>D\<close> is an exact multiple
  of \<open>m\<close>. \<open>float_mod\<close> is the remainder of the division of floats, for a positive
  divisor.
\<close>

definition float_mod :: "rat \<Rightarrow> rat \<Rightarrow> rat" where
  "float_mod D m = D - m * of_int \<lfloor>D / m\<rfloor>"

definition expected_durations :: "rat \<Rightarrow> rat \<Rightarrow> rat list" where
  "expected_durations D m =
     replicate (nat \<lceil>D / m\<rceil> - 1) m @ [if float_mod D m = 0 then m else float_mod D m]"

text \<open>
  The sub-clips from the \<open>k\<close>-th on when the loop makes \<open>n\<close> rounds: the path of
  each and its duration.
\<close>

definition sub_clips :: "nat \<Rightarrow> rat \<Rightarrow> rat \<Rightarrow> nat \<Rightarrow> nat \<Rightarrow> (clip_path \<times> rat) list" where
  "sub_clips i m D n k =
     map (\<lambda>j. ((i, of_nat j * m), if Suc j < n then m else D - of_nat (n - 1) * m)) [k ..< n]"

text \<open>
  The \<open>for i, video_path in enumerate(video_paths)\<close> loop: an exception raised while
  a source is processed is logged and the loop goes on with the next source.
\<close>

fun process_clips ::
  "media \<Rightarrow> video_concat_mode \<Rightarrow> rat \<Rightarrow> nat \<times> nat \<Rightarrow> (nat \<times> string) list \<Rightarrow> clip_state
     \<Rightarrow> clip_state option" where
  "process_clips env video_concat_mode max_clip_duration resolution [] st = Some st"
| "process_clips env video_concat_mode max_clip_duration resolution ((i, video_path) # rest) st =
     (case map_of (videos env) video_path of
        None \<Rightarrow>
          process_clips env video_concat_mode max_clip_duration resolution rest
            (st\<lparr>logged := logged st @ [Process_failed video_path IOError]\<rparr>)
      | Some (clip_duration, clip_w, clip_h) \<Rightarrow>
          (case fit_size clip_w clip_h (fst resolution) (snd resolution) of
             Inl e \<Rightarrow>
               process_clips env video_concat_mode max_clip_duration resolution rest
                 (st\<lparr>logged := logged st @ [Process_failed video_path e]\<rparr>)
           | Inr new_size \<Rightarrow>
               (case split_loop (write_fails env) video_concat_mode max_clip_duration clip_duration i 0 st of
                  None \<Rightarrow> None
                | Some (Some e, st') \<Rightarrow>
                    process_clips env video_concat_mode max_clip_duration resolution rest
                      (st'\<lparr>logged := logged st' @ [Process_failed video_path e]\<rparr>)
                | Some (None, st') \<Rightarrow>
                    process_clips env video_concat_mode max_clip_duration resolution rest st')))"

subsection \<open>Random order\<close>

text \<open>
  One round of the \<open>while available_paths\<close> loop, for a non-empty
  \<open>shuffled_paths\<close> and a non-empty \<open>available_paths\<close>: the swap of the last
  placed path with the only path left when that one equals the first placed path, then
  the choice among the paths that differ from the last placed one, or among all of them
  when there is no such path.
\<close>

definition swap_guard :: "'a list \<Rightarrow> 'a list \<Rightarrow> bool" where
  "swap_guard shuffled_paths available_paths =
     (length available_paths = 1 \<and> available_paths ! 0 = shuffled_paths ! 0)"

definition shuffle_step :: "nat \<Rightarrow> 'a list \<Rightarrow> 'a list \<Rightarrow> 'a list \<times> 'a list" where
  "shuffle_step rnd shuffled_paths available_paths =
     (let (shuffled_paths, available_paths) =
            (if swap_guard shuffled_paths available_paths
             then (butlast shuffled_paths @ [available_paths ! 0], [last shuffled_paths])
             else (shuffled_paths, available_paths));
          candidates = filter (\<lambda>p. p \<noteq> last shuffled_paths) available_paths;
          candidates = (if candidates = [] then available_paths else candidates);
          next_clip = pick rnd candidates
      in (shuffled_paths @ [next_clip], remove1 next_clip available_paths))"

function shuffle_loop :: "nat list \<Rightarrow> 'a list \<Rightarrow> 'a list \<Rightarrow> py_error + 'a list" where
  "shuffle_loop rnds shuffled_paths available_paths =
     (if available_paths = [] then Inr shuffled_paths
      else if shuffled_paths = [] then Inl IndexError
      else shuffle_loop (tl rnds)
             (fst (shuffle_step (draw rnds) shuffled_paths available_paths))
             (snd (shuffle_step (draw rnds) shuffled_paths available_paths)))"
  by pat_completeness auto
termination
proof (relation "measure (\<lambda>(rnds, shuffled_paths, available_paths). length available_paths)")
  show "wf (measure (\<lambda>(rnds, shuffled_paths, available_paths). length available_paths))"
    by simp
next
  fix rnds :: "nat list" and shuffled_paths available_paths :: "'a list"
  assume ne: "available_paths \<noteq> []"
  have pick_in: "pick r xs \<in> set xs" if "xs \<noteq> []" for r and xs :: "'a list"
    using that by (simp add: pick_def)
  have shorter: "length (remove1 (pick r (if filter P xs = [] then xs else filter P xs)) xs) < length xs"
    if "xs \<noteq> []" for r P and xs :: "'a list"
  proof -
    have "pick r (if filter P xs = [] then xs else filter P xs) \<in> set xs"
    proof (cases "filter P xs = []")
      case True
      then show ?thesis using pick_in[OF that] by simp
    next
      case False
      then have "pick r (filter P xs) \<in> set (filter P xs)" by (rule pick_in)
      then show ?thesis using False by simp
    qed
    then show ?thesis
      using that by (simp add: length_remove1)
  qed
  define swapped where "swapped =
    (if swap_guard shuffled_paths available_paths
     then (butlast shuffled_paths @ [available_paths ! 0], [last shuffled_paths])
     else (shuffled_paths, available_paths))"
  have len: "length (snd swapped) = length available_paths"
    by (simp add: swapped_def swap_guard_def)
  then have ne': "snd swapped \<noteq> []"
    using ne by auto
  have "snd (shuffle_step (draw rnds) shuffled_paths available_paths) =
      remove1 (pick (draw rnds)
        (if filter (\<lambda>p. p \<noteq> last (fst swapped)) (snd swapped) = [] then snd swapped
         else filter (\<lambda>p. p \<noteq> last (fst swapped)) (snd swapped))) (snd swapped)"
    unfolding shuffle_step_def swapped_def[symmetric] by (simp add: Let_def split_beta)
  then have "length (snd (shuffle_step (draw rnds) shuffled_paths available_paths)) < length available_paths"
    using shorter[OF ne'] len by simp
  then show "((tl rnds, fst (shuffle_step (draw rnds) shuffled_paths available_paths),
               snd (shuffle_step (draw rnds) shuffled_paths available_paths)),
              rnds, shuffled_paths, available_paths)
             \<in> measure (\<lambda>(rnds, shuffled_paths, available_paths). length available_paths)"
    by (simp add: split_beta)
qed

declare shuffle_loop.simps [simp del]

text \<open>
  The random branch of the ordering: with more than one path, a first path is chosen and
  the loop places the others; \<open>random.shuffle\<close> of at most one path leaves the list
  as it is.
\<close>

definition random_order :: "nat list \<Rightarrow> 'a list \<Rightarrow> py_error + 'a list" where
  "random_order rnds processed_clip_paths =
     (if length processed_clip_paths > 1 then
        (case random_choice (draw rnds) processed_clip_paths of
           Inl e \<Rightarrow> Inl e
         | Inr first_clip \<Rightarrow>
             shuffle_loop (tl rnds) [first_clip] (remove1 first_clip processed_clip_paths))
      else Inr processed_clip_paths)"




subsection \<open>Merging\<close>

text \<open>
  The batches of the merge loop start at the indices \<open>range(1, n, 2)\<close>. A batch loads
  the files of the paths \<open>i\<close> and \<open>i + 1\<close> (the latter when it exists) and appends
  them to the base, whose duration grows by theirs; a batch that raises is logged and
  skipped. Transitions change the pictures of a clip, not its duration, and are left out.
\<close>

definition batch_starts :: "nat \<Rightarrow> nat list" where
  "batch_starts n = map (\<lambda>k. 1 + 2 * k) [0 ..< n div 2]"

fun those_durations :: "rat option list \<Rightarrow> rat list option" where
  "those_durations [] = Some []"
| "those_durations (None # ds) = None"
| "those_durations (Some d # ds) = map_option ((#) d) (those_durations ds)"

fun merge_batches ::
  "nat list \<Rightarrow> (clip_path \<times> rat) list \<Rightarrow> clip_path list \<Rightarrow> nat list \<Rightarrow> rat \<times> log_entry list
     \<Rightarrow> rat \<times> log_entry list" where
  "merge_batches fails files paths [] acc = acc"
| "merge_batches fails files paths (i # rest) (base, lg) =
     (if i \<in> set fails then merge_batches fails files paths rest (base, lg @ [Merge_failed IOError])
      else
        (case those_durations (map (\<lambda>j. map_of files (paths ! j)) [i ..< min (i + 2) (length paths)]) of
           None \<Rightarrow> merge_batches fails files paths rest (base, lg @ [Merge_failed IOError])
         | Some batch_clips \<Rightarrow> merge_batches fails files paths rest (base + sum_list batch_clips, lg)))"

subsection \<open>Adding the narration\<close>

text \<open>
  The last stage of \<open>combine_videos\<close>. \<open>video_duration\<close> is the sum accumulated by
  the processing loop, \<open>clip_duration\<close> the duration of the merged file as loaded by
  \<open>VideoFileClip(combined_video_path)\<close>, and \<open>audio_duration\<close> the duration of the
  narration.
\<close>

definition repeat_times :: "rat \<Rightarrow> rat \<Rightarrow> int" where
  "repeat_times audio_duration video_duration = py_int (audio_duration / video_duration) + 1"

text \<open>
  \<open>concatenate_videoclips([video_clip] * repeat_times)\<close>: the list holds
  \<open>repeat_times\<close> copies (none when the count is not positive) and the duration of a
  concatenation is the sum of the durations.
\<close>

definition loop_video :: "rat \<Rightarrow> rat \<Rightarrow> rat \<Rightarrow> py_error + rat" where
  "loop_video video_duration clip_duration audio_duration =
     (if video_duration < audio_duration then
        (if video_duration = 0 then Inl ZeroDivisionError
         else Inr (sum_list (replicate (nat (repeat_times audio_duration video_duration)) clip_duration)))
      else Inr clip_duration)"

text \<open>\<open>subclip(0, t)\<close> has duration \<open>t\<close>.\<close>

definition trim_video :: "rat \<Rightarrow> rat \<Rightarrow> rat" where
  "trim_video clip_duration audio_duration =
     (if clip_duration > audio_duration then audio_duration else clip_duration)"

definition trim_audio :: "rat \<Rightarrow> rat \<Rightarrow> rat" where
  "trim_audio audio_duration clip_duration =
     (if audio_duration > clip_duration then clip_duration else audio_duration)"

text \<open>The stage yields the durations of the final video and of its audio track.\<close>

definition add_audio :: "rat \<Rightarrow> rat \<Rightarrow> rat \<Rightarrow> py_error + rat \<times> rat" where
  "add_audio video_duration clip_duration audio_duration =
     (case loop_video video_duration clip_duration audio_duration of
        Inl e \<Rightarrow> Inl e
      | Inr looped \<Rightarrow>
          let video_clip = trim_video looped audio_duration;
              audio_clip = trim_audio audio_duration video_clip
          in Inr (video_clip, audio_clip))"

subsection \<open>The whole function\<close>

text \<open>
  What a call leaves behind: the returned path, the file at \<open>combined_video_path\<close>
  (none, or the duration of its pictures and of its audio track if it has one) and the log.
\<close>

record job =
  returned :: string
  output_file :: "(rat \<times> rat option) option"
  job_log :: "log_entry list"

definition merge_and_add_audio ::
  "media \<Rightarrow> string \<Rightarrow> rat \<Rightarrow> clip_state \<Rightarrow> clip_path list \<Rightarrow> py_error + job" where
  "merge_and_add_audio env combined_video_path audio_duration st paths =
     (if paths = [] then
        Inr \<lparr>returned = combined_video_path, output_file = None, job_log = logged st @ [No_clips]\<rparr>
      else
        (case map_of (temp_files st) (paths ! 0) of
           None \<Rightarrow> Inl IOError
         | Some first_duration \<Rightarrow>
             if length paths = 1 then
               Inr \<lparr>returned = combined_video_path, output_file = Some (first_duration, None),
                    job_log = logged st\<rparr>
             else
               (let (merged, lg) =
                      merge_batches (merge_fails env) (temp_files st) paths
                        (batch_starts (length paths)) (first_duration, logged st)
                in case add_audio (total_duration st) merged audio_duration of
                     Inl e \<Rightarrow>
                       Inr \<lparr>returned = combined_video_path, output_file = Some (merged, None),
                            job_log = lg @ [Audio_failed e]\<rparr>
                   | Inr (video_clip, audio_clip) \<Rightarrow>
                       if final_fails env then
                         Inr \<lparr>returned = combined_video_path, output_file = Some (merged, None),
                              job_log = lg @ [Audio_failed IOError]\<rparr>
                       else
                         Inr \<lparr>returned = combined_video_path,
                              output_file = Some (video_clip, Some audio_clip), job_log = lg\<rparr>)))"

text \<open>
  \<open>combine_videos\<close>: the narration is opened, \<open>audio_duration / len(video_paths)\<close>
  is computed, the sources are processed, the paths are ordered, and the clips are merged
  and given the narration. \<open>None\<close> is a call that does not return.
\<close>

definition combine_videos ::
  "media \<Rightarrow> nat list \<Rightarrow> string \<Rightarrow> string list \<Rightarrow> string \<Rightarrow> nat \<times> nat \<Rightarrow> video_concat_mode \<Rightarrow> rat
     \<Rightarrow> (py_error + job) option" where
  "combine_videos env rnds combined_video_path video_paths audio_file resolution video_concat_mode
       max_clip_duration =
     (case map_of (audios env) audio_file of
        None \<Rightarrow> Some (Inl IOError)
      | Some audio_duration \<Rightarrow>
          if video_paths = [] then Some (Inl ZeroDivisionError)
          else
            (case process_clips env video_concat_mode max_clip_duration resolution
                    (zip [0 ..< length video_paths] video_paths)
                    \<lparr>processed = [], total_duration = 0, temp_files = [], logged = []\<rparr> of
               None \<Rightarrow> None
             | Some st \<Rightarrow>
                 (case (if video_concat_mode = Random then random_order rnds (processed st)
                        else Inr (processed st)) of
                    Inl e \<Rightarrow> Some (Inl e)
                  | Inr paths \<Rightarrow>
                      Some (merge_and_add_audio env combined_video_path audio_duration st paths))))"

section \<open>wrap_text\<close>

text \<open>
  The font is the function that \<open>font.getbbox\<close> computes: the width and the height of
  the box of a text. Strings are lists of characters; \<open>strip\<close> removes the white space
  at both ends, \<open>split_spaces\<close> is \<open>text.split(" ")\<close> and \<open>join_lines\<close> is
  \<open>"\n".join\<close>.
\<close>

definition is_space :: "char \<Rightarrow> bool" where
  "is_space c = (c \<in> set [CHR '' '', CHR 0x09, CHR 0x0A, CHR 0x0B, CHR 0x0C, CHR 0x0D,
                            CHR 0x1C, CHR 0x1D, CHR 0x1E, CHR 0x1F])"

definition strip :: "string \<Rightarrow> string" where
  "strip s = rev (dropWhile is_space (rev (dropWhile is_space s)))"

fun split_spaces :: "string \<Rightarrow> string list" where
  "split_spaces [] = [] # []"
| "split_spaces (c # cs) =
     (if c = CHR '' '' then [] # split_spaces cs
      else (case split_spaces cs of [] \<Rightarrow> [c] # [] | w # ws \<Rightarrow> (c # w) # ws))"

fun join_lines :: "string list \<Rightarrow> string" where
  "join_lines [] = []"
| "join_lines [l] = l"
| "join_lines (l # ls) = l @ [CHR 0x0A] @ join_lines ls"

definition get_text_size :: "(string \<Rightarrow> int \<times> int) \<Rightarrow> string \<Rightarrow> int \<times> int" where
  "get_text_size font inner_text = font (strip inner_text)"

text \<open>
  The loop over the words. It yields \<open>processed\<close> and the lines, the text in hand
  appended after the loop.
\<close>

fun word_pass :: "(string \<Rightarrow> int \<times> int) \<Rightarrow> rat \<Rightarrow> string list \<Rightarrow> string \<Rightarrow> string list \<Rightarrow> bool \<times> string list" where
  "word_pass font max_width [] txt wrapped_lines = (True, wrapped_lines @ [txt])"
| "word_pass font max_width (word # ws) txt wrapped_lines =
     (let before = txt;
          txt = txt @ word @ '' ''
      in if of_int (fst (get_text_size font txt)) \<le> max_width
         then word_pass font max_width ws txt wrapped_lines
         else if strip txt = strip word then (False, wrapped_lines @ [txt])
         else word_pass font max_width ws (word @ '' '') (wrapped_lines @ [before]))"

text \<open>The loop over the characters, the text in hand appended after the loop.\<close>

fun char_pass :: "(string \<Rightarrow> int \<times> int) \<Rightarrow> rat \<Rightarrow> string \<Rightarrow> string \<Rightarrow> string list \<Rightarrow> string list" where
  "char_pass font max_width [] txt wrapped_lines = wrapped_lines @ [txt]"
| "char_pass font max_width (word # chars) txt wrapped_lines =
     (let txt = txt @ [word]
      in if of_int (fst (get_text_size font txt)) \<le> max_width
         then char_pass font max_width chars txt wrapped_lines
         else char_pass font max_width chars [] (wrapped_lines @ [txt]))"

definition wrap_text :: "(string \<Rightarrow> int \<times> int) \<Rightarrow> string \<Rightarrow> rat \<Rightarrow> string \<times> int" where
  "wrap_text font text max_width =
     (let (width, height) = get_text_size font text
      in if of_int width \<le> max_width then (text, height)
         else
           (case word_pass font max_width (split_spaces text) [] [] of
              (True, wrapped_lines) \<Rightarrow>
                (strip (join_lines (map strip wrapped_lines)), int (length wrapped_lines) * height)
            | (False, _) \<Rightarrow>
                (let wrapped_lines = char_pass font max_width text [] []
                 in (strip (join_lines wrapped_lines), int (length wrapped_lines) * height))))"

text \<open>The width given to \<open>wrap_text\<close> by \<open>create_text_clip\<close>: \<open>video_width * 0.9\<close>.\<close>

definition subtitle_max_width :: "nat \<Rightarrow> rat" where
  "subtitle_max_width video_width = of_nat video_width * (9 / 10)"

text \<open>A font for examples: every character is ten wide and twenty high.\<close>

definition fixed_font :: "string \<Rightarrow> int \<times> int" where
  "fixed_font s = (10 * int (length s), 20)"

section \<open>preprocess_video\<close>

text \<open>
  Of a material only the \<open>url\<close> is used; the record is extensible, so that the other
  fields of \<open>MaterialInfo\<close> are carried along. The world is a record: the size of the
  urls that \<open>VideoFileClip\<close> opens, the size of those that \<open>ImageClip\<close> opens, the
  urls whose extension is in \<open>const.FILE_TYPE_IMAGES\<close>, and the urls for which the
  conversion of the image raises. The parameter \<open>clip_duration\<close> only enters that
  conversion and is left out.
\<close>

record material_info =
  url :: string

record sources =
  video_sizes :: "(string \<times> nat \<times> nat) list"
  image_sizes :: "(string \<times> nat \<times> nat) list"
  image_urls :: "string list"
  convert_fails :: "string list"

text \<open>
  \<open>try: clip = VideoFileClip(material.url)\<close>, \<open>except Exception: clip =
  ImageClip(material.url)\<close>: the size of the clip, or nothing when both raise.
\<close>

definition open_clip :: "sources \<Rightarrow> string \<Rightarrow> (nat \<times> nat) option" where
  "open_clip env u =
     (case map_of (video_sizes env) u of
        Some clip_size \<Rightarrow> Some clip_size
      | None \<Rightarrow> map_of (image_sizes env) u)"

text \<open>
  The body of the loop for one material: the material as it is left in the list and what
  was logged, or the exception that leaves the function.
\<close>

definition preprocess_material ::
  "sources \<Rightarrow> 'a material_info_scheme \<Rightarrow> py_error + 'a material_info_scheme \<times> log_entry list" where
  "preprocess_material env material =
     (if url material = [] then Inr (material, [])
      else
        (case open_clip env (url material) of
           None \<Rightarrow> Inl IOError
         | Some (width, height) \<Rightarrow>
             if width < 480 \<or> height < 480 then Inr (material, [Low_resolution width height])
             else if url material \<in> set (image_urls env) then
               (if url material \<notin> set (map fst (image_sizes env)) \<or> url material \<in> set (convert_fails env)
                then Inl IOError
                else Inr (material\<lparr>url := url material @ ''.mp4''\<rparr>, []))
             else Inr (material, [])))"

text \<open>The loop over the materials; the list that is returned is the list that was given.\<close>

fun preprocess_video ::
  "sources \<Rightarrow> 'a material_info_scheme list \<Rightarrow> py_error + 'a material_info_scheme list \<times> log_entry list" where
  "preprocess_video env [] = Inr ([], [])"
| "preprocess_video env (material # materials) =
     (case preprocess_material env material of
        Inl e \<Rightarrow> Inl e
      | Inr (material', lg) \<Rightarrow>
          (case preprocess_video env materials of
             Inl e \<Rightarrow> Inl e
           | Inr (materials', lg') \<Rightarrow> Inr (material' # materials', lg @ lg')))"

section \<open>Properties\<close>

lemma sum_list_replicate_rat: "sum_list (replicate n (x::rat)) = of_nat n * x"
  by (induction n) (simp_all add: algebra_simps)




subsection \<open>Merging and adding the narration\<close>











text \<open>
  Claim C10. \<open>get_bgm_file\<close> returns the empty string whenever \<open>bgm_type\<close> is empty,
  even if \<open>bgm_file\<close> exists; with a non-empty \<open>bgm_type\<close> and a non-empty, existing
  \<open>bgm_file\<close> it returns \<open>bgm_file\<close> whatever \<open>bgm_type\<close> is; and for a non-empty
  \<open>bgm_type\<close> other than \<open>random\<close> without a usable explicit file it returns the
  empty string.
\<close>

theorem get_bgm_file_cases:
  "get_bgm_file path_exists song_files rnd [] bgm_file = Inr []
   \<and> (bgm_type \<noteq> [] \<and> bgm_file \<noteq> [] \<and> path_exists bgm_file
        \<longrightarrow> get_bgm_file path_exists song_files rnd bgm_type bgm_file = Inr bgm_file)
   \<and> (bgm_type \<noteq> [] \<and> bgm_type \<noteq> ''random'' \<and> (bgm_file = [] \<or> \<not> path_exists bgm_file)
        \<longrightarrow> get_bgm_file path_exists song_files rnd bgm_type bgm_file = Inr [])"
  by (auto simp: get_bgm_file_def)

theorem get_bgm_file_cases_witness:
  "get_bgm_file (\<lambda>p. p = ''a.mp3'') [''s.mp3''] 0 [] ''a.mp3'' = Inr []
   \<and> get_bgm_file (\<lambda>p. p = ''a.mp3'') [''s.mp3''] 0 ''custom'' ''a.mp3'' = Inr ''a.mp3''
   \<and> get_bgm_file (\<lambda>p. p = ''a.mp3'') [''s.mp3''] 0 ''random'' ''a.mp3'' = Inr ''a.mp3''
   \<and> get_bgm_file (\<lambda>p. p = ''a.mp3'') [''s.mp3''] 0 ''custom'' ''b.mp3'' = Inr []
   \<and> get_bgm_file (\<lambda>p. p = ''a.mp3'') [''s.mp3''] 0 ''custom'' [] = Inr []"
  using get_bgm_file_cases [of "\<lambda>p. p = ''a.mp3''" "[''s.mp3'']" 0 "''a.mp3''" "''custom''"]
    get_bgm_file_cases [of "\<lambda>p. p = ''a.mp3''" "[''s.mp3'']" 0 "''a.mp3''" "''random''"]
    get_bgm_file_cases [of "\<lambda>p. p = ''a.mp3''" "[''s.mp3'']" 0 "''b.mp3''" "''custom''"]
    get_bgm_file_cases [of "\<lambda>p. p = ''a.mp3''" "[''s.mp3'']" 0 "[]" "''custom''"]
  by simp

subsection \<open>The splitting loop\<close>

lemma clip_count_bounds:
  assumes "0 < m" and "0 < (D::rat)"
  shows "0 < nat \<lceil>D / m\<rceil>"
    and "of_nat (nat \<lceil>D / m\<rceil> - 1) * m < D"
    and "D \<le> of_nat (nat \<lceil>D / m\<rceil>) * m"
proof -
  have pos: "0 < D / m" using assms by simp
  then have c: "0 < \<lceil>D / m\<rceil>" by (simp add: ceiling_less_iff less_ceiling_iff)
  then show "0 < nat \<lceil>D / m\<rceil>" by simp
  have "of_int (\<lceil>D / m\<rceil> - 1) < D / m" by linarith
  moreover have "int (nat \<lceil>D / m\<rceil> - 1) = \<lceil>D / m\<rceil> - 1"
    using c by linarith
  then have "(of_nat (nat \<lceil>D / m\<rceil> - 1) :: rat) = of_int (\<lceil>D / m\<rceil> - 1)"
    by (metis of_int_of_nat_eq)
  ultimately show "of_nat (nat \<lceil>D / m\<rceil> - 1) * m < D"
    using assms(1) by (simp add: pos_less_divide_eq)
  have "D \<le> of_int \<lceil>D / m\<rceil> * m"
    using assms(1) le_of_int_ceiling[of "D / m"] by (simp only: pos_divide_le_eq)
  moreover have "(of_nat (nat \<lceil>D / m\<rceil>) :: rat) = of_int \<lceil>D / m\<rceil>"
    using c by simp
  ultimately show "D \<le> of_nat (nat \<lceil>D / m\<rceil>) * m"
    by simp
qed

lemma split_loop_from:
  assumes m: "0 < m" and lo: "of_nat (n - 1) * m < D" and hi: "D \<le> of_nat n * m"
    and ok: "\<forall>s. (i, s) \<notin> set fails" and k: "k < n"
  shows "split_loop fails Random m D i (of_nat k * m) st =
           Some (None, st\<lparr>processed := processed st @ map fst (sub_clips i m D n k),
                           total_duration := total_duration st + (D - of_nat k * m),
                           temp_files := temp_files st @ sub_clips i m D n k\<rparr>)"
  using k
proof (induction "n - Suc k" arbitrary: k st)
  case 0
  then have n: "n = Suc k" by simp
  have lt: "of_nat k * m < D"
    using lo n by simp
  have ge: "D \<le> of_nat k * m + m"
    using hi n by (simp add: algebra_simps)
  have "split_loop fails Random m D i (of_nat k * m) st =
      split_loop fails Random m D i D
        (st\<lparr>processed := processed st @ [(i, of_nat k * m)],
             total_duration := total_duration st + (D - of_nat k * m),
             temp_files := temp_files st @ [((i, of_nat k * m), D - of_nat k * m)]\<rparr>)"
    using lt ge ok by (subst split_loop.simps) (simp add: Let_def min_def)
  also have "\<dots> = Some (None, st\<lparr>processed := processed st @ [(i, of_nat k * m)],
             total_duration := total_duration st + (D - of_nat k * m),
             temp_files := temp_files st @ [((i, of_nat k * m), D - of_nat k * m)]\<rparr>)"
    by (subst split_loop.simps) simp
  finally show ?case
    by (simp add: sub_clips_def n)
next
  case (Suc d)
  then have kn: "Suc k < n" by simp
  then have "Suc k \<le> n - 1" by simp
  then have "(of_nat (Suc k) :: rat) \<le> of_nat (n - 1)"
    by (simp only: of_nat_le_iff)
  then have "of_nat (Suc k) * m \<le> of_nat (n - 1) * m"
    using m by (simp only: mult_le_cancel_right_pos)
  then have lt': "of_nat (Suc k) * m < D"
    using lo by simp
  have "of_nat k * m < of_nat (Suc k) * m"
    using m by (simp add: algebra_simps)
  then have lt: "of_nat k * m < D"
    using lt' by simp
  have e: "min (of_nat k * m + m) D = of_nat (Suc k) * m"
    using lt' by (simp add: algebra_simps min_def)
  have up: "[k ..< n] = k # [Suc k ..< n]"
    using kn by (simp add: upt_conv_Cons)
  have d1: "of_nat (Suc k) * m - of_nat k * m = m"
    by (simp add: algebra_simps)
  have d: "d = n - Suc (Suc k)" using Suc by simp
  have "split_loop fails Random m D i (of_nat k * m) st =
      split_loop fails Random m D i (of_nat (Suc k) * m)
        (st\<lparr>processed := processed st @ [(i, of_nat k * m)],
             total_duration := total_duration st + m,
             temp_files := temp_files st @ [((i, of_nat k * m), m)]\<rparr>)"
    using lt ok by (subst split_loop.simps) (simp add: Let_def e d1 del: of_nat_Suc)
  also have "\<dots> = Some (None, st\<lparr>processed := processed st @ map fst (sub_clips i m D n k),
                           total_duration := total_duration st + (D - of_nat k * m),
                           temp_files := temp_files st @ sub_clips i m D n k\<rparr>)"
    using kn by (subst Suc.hyps(1)[OF d kn]) (simp add: sub_clips_def up algebra_simps)
  finally show ?case .
qed


lemma map_last_special:
  "0 < n \<Longrightarrow> map (\<lambda>j. if Suc j < n then a else b) [0 ..< n] = replicate (n - 1) a @ [b]"
proof (induction n)
  case 0
  then show ?case by simp
next
  case (Suc n)
  show ?case
  proof (cases "n = 0")
    case True
    then show ?thesis by simp
  next
    case False
    then have "map (\<lambda>j. if Suc j < n then a else b) [0 ..< n] = replicate (n - 1) a @ [b]"
      using Suc.IH by simp
    moreover have "map (\<lambda>j. if Suc j < Suc n then a else b) [0 ..< n] = map (\<lambda>j. a) [0 ..< n]"
      by (simp only: map_eq_conv) simp
    then have "map (\<lambda>j. if Suc j < Suc n then a else b) [0 ..< n] = replicate n a"
      by (simp add: map_replicate_const)
    ultimately show ?thesis
      using False by (simp add: replicate_append_same)
  qed
qed

lemma last_duration:
  assumes m: "0 < m" and D: "0 < (D::rat)"
  shows "D - of_nat (nat \<lceil>D / m\<rceil> - 1) * m = (if float_mod D m = 0 then m else float_mod D m)"
proof -
  have c: "0 < \<lceil>D / m\<rceil>"
    using clip_count_bounds(1)[OF m D] by simp
  then have "int (nat \<lceil>D / m\<rceil> - 1) = \<lceil>D / m\<rceil> - 1"
    by linarith
  then have n1: "(of_nat (nat \<lceil>D / m\<rceil> - 1) :: rat) = of_int (\<lceil>D / m\<rceil> - 1)"
    by (metis of_int_of_nat_eq)
  show ?thesis
  proof (cases "of_int \<lfloor>D / m\<rfloor> = D / m")
    case True
    then have ceq: "\<lceil>D / m\<rceil> = \<lfloor>D / m\<rfloor>"
      by (metis ceiling_of_int)
    have "m * of_int \<lfloor>D / m\<rfloor> = m * (D / m)"
      by (simp only: True)
    then have Deq: "m * of_int \<lfloor>D / m\<rfloor> = D"
      using m by simp
    then have fm: "float_mod D m = 0"
      by (simp add: float_mod_def)
    have "D - of_nat (nat \<lceil>D / m\<rceil> - 1) * m = D - of_int (\<lfloor>D / m\<rfloor> - 1) * m"
      by (simp only: n1) (simp only: ceq)
    also have "\<dots> = D - m * of_int \<lfloor>D / m\<rfloor> + m"
      by (simp add: algebra_simps)
    also have "\<dots> = m"
      by (simp only: Deq)
    finally show ?thesis
      by (simp add: fm)
  next
    case False
    then have ceq: "\<lceil>D / m\<rceil> = \<lfloor>D / m\<rfloor> + 1"
      by (auto simp: ceiling_altdef)
    have "m * of_int \<lfloor>D / m\<rfloor> \<noteq> m * (D / m)"
      using False m by (simp only: mult_cancel_left) simp
    then have "m * of_int \<lfloor>D / m\<rfloor> \<noteq> D"
      using m by simp
    then have fm: "float_mod D m \<noteq> 0"
      by (simp add: float_mod_def)
    have "D - of_nat (nat \<lceil>D / m\<rceil> - 1) * m = D - of_int (\<lfloor>D / m\<rfloor> + 1 - 1) * m"
      by (simp only: n1) (simp only: ceq)
    also have "\<dots> = float_mod D m"
      by (simp add: float_mod_def algebra_simps)
    finally show ?thesis
      using fm by (simp only: if_False)
  qed
qed

lemma sub_clips_durations:
  assumes m: "0 < m" and D: "0 < D"
  shows "map snd (sub_clips i m D (nat \<lceil>D / m\<rceil>) 0) = expected_durations D m"
  using clip_count_bounds(1)[OF m D] last_duration[OF m D]
  by (simp add: sub_clips_def expected_durations_def comp_def map_last_special)

lemma expected_durations_sum:
  assumes m: "0 < m" and D: "0 < D"
  shows "sum_list (expected_durations D m) = D"
  using last_duration[OF m D, symmetric]
  by (simp add: expected_durations_def sum_list_replicate_rat)

text \<open>
  Claim C4. For a source of duration \<open>D > 0\<close> whose sub-clips are all written, and a
  maximum clip duration \<open>m > 0\<close>, the splitting loop under random mode returns; it
  appends \<open>ceil(D / m)\<close> sub-clips, starting at the multiples of \<open>m\<close>; their
  durations sum to \<open>D\<close> (which is what is added to \<open>video_duration\<close>), and each
  lasts \<open>m\<close> except the last, which lasts \<open>D mod m\<close>, or \<open>m\<close> when \<open>D\<close> is an
  exact multiple of \<open>m\<close>.
\<close>

theorem split_loop_sub_clips:
  assumes "0 < m" and "0 < D" and "\<forall>s. (i, s) \<notin> set fails"
  shows "split_loop fails Random m D i 0 st =
           Some (None, st\<lparr>processed := processed st @ map (\<lambda>k. (i, of_nat k * m)) [0 ..< nat \<lceil>D / m\<rceil>],
                           total_duration := total_duration st + D,
                           temp_files := temp_files st @
                             zip (map (\<lambda>k. (i, of_nat k * m)) [0 ..< nat \<lceil>D / m\<rceil>]) (expected_durations D m)\<rparr>)
       \<and> length (expected_durations D m) = nat \<lceil>D / m\<rceil>
       \<and> sum_list (expected_durations D m) = D
       \<and> expected_durations D m =
           replicate (nat \<lceil>D / m\<rceil> - 1) m @ [if float_mod D m = 0 then m else float_mod D m]"
proof -
  let ?n = "nat \<lceil>D / m\<rceil>"
  have n: "0 < ?n" by (rule clip_count_bounds(1)[OF assms(1,2)])
  have run: "split_loop fails Random m D i (of_nat 0 * m) st =
           Some (None, st\<lparr>processed := processed st @ map fst (sub_clips i m D ?n 0),
                           total_duration := total_duration st + (D - of_nat 0 * m),
                           temp_files := temp_files st @ sub_clips i m D ?n 0\<rparr>)"
    by (rule split_loop_from[OF assms(1) clip_count_bounds(2)[OF assms(1,2)]
          clip_count_bounds(3)[OF assms(1,2)] assms(3) n])
  have fsts: "map fst (sub_clips i m D ?n 0) = map (\<lambda>k. (i, of_nat k * m)) [0 ..< ?n]"
    by (simp add: sub_clips_def comp_def)
  have "sub_clips i m D ?n 0 = zip (map fst (sub_clips i m D ?n 0)) (map snd (sub_clips i m D ?n 0))"
    by (simp add: zip_map_fst_snd)
  then have z: "sub_clips i m D ?n 0 =
      zip (map (\<lambda>k. (i, of_nat k * m)) [0 ..< ?n]) (expected_durations D m)"
    by (simp only: fsts sub_clips_durations[OF assms(1,2)])
  have len: "length (expected_durations D m) = ?n"
    using n by (simp add: expected_durations_def)
  show ?thesis
    using run len expected_durations_sum[OF assms(1,2)]
    by (simp add: fsts z[symmetric]) (simp add: expected_durations_def)
qed

theorem split_loop_sub_clips_witness:
  "(0::rat) < 5 \<and> (0::rat) < 12 \<and> (\<forall>s. (0, s) \<notin> set ([]::clip_path list))
   \<and> split_loop [] Random 5 12 0 0 \<lparr>processed = [], total_duration = 0, temp_files = [], logged = []\<rparr> =
       Some (None, \<lparr>processed = [(0, 0), (0, 5), (0, 10)], total_duration = 12,
                     temp_files = [((0, 0), 5), ((0, 5), 5), ((0, 10), 2)], logged = []\<rparr>)
   \<and> expected_durations 12 5 = [5, 5, 2]"
proof -
  have c: "\<lceil>(12::rat) / 5\<rceil> = 3"
    by (rule ceiling_unique) simp_all
  have f: "\<lfloor>(12::rat) / 5\<rfloor> = 2"
    by (rule floor_unique) simp_all
  have u: "[0 ..< 3] = [0, 1, 2]"
    by (simp add: upt_conv_Cons)
  have r: "replicate 2 (5::rat) = [5, 5]"
    by (simp add: numeral_2_eq_2)
  show ?thesis
    using split_loop_sub_clips [of 5 12 0 "[]" "\<lparr>processed = [], total_duration = 0, temp_files = [], logged = []\<rparr>"]
    by (simp add: expected_durations_def float_mod_def c f u r)
qed

subsection \<open>Random order\<close>
















subsection \<open>close_clip\<close>




lemma obj_at_update:
  "obj_at (h[i := c]) j = (if j = i \<and> i < length h then c else obj_at h j)"
  by (simp add: obj_at_def)


lemma close_reader_attr_ok:
  "set (attr_value a) \<inter> set fails = {} \<Longrightarrow>
     close_reader_attr fails a st = (None, st\<lparr>closed := closed st @ attr_value a\<rparr>)"
  by (cases a) (auto simp: close_reader_attr_def close_reader_def)


lemma del_audio_grows:
  "grows st (st\<lparr>heap := (heap st)[i := (obj_at (heap st) i)\<lparr>audio := x\<rparr>]\<rparr>)"
  by (auto simp: grows_def obj_at_update)

lemma del_mask_grows:
  "grows st (st\<lparr>heap := (heap st)[i := (obj_at (heap st) i)\<lparr>mask := x\<rparr>]\<rparr>)"
  by (auto simp: grows_def obj_at_update)





















subsection \<open>wrap_text\<close>

text \<open>
  Claim C8. For every phrase whose rendered width is at most the width given to
  \<open>wrap_text\<close> (\<open>0.9 * video_width\<close> in \<open>create_text_clip\<close>), the phrase is
  returned unchanged, not even stripped, and the height is that of one line.
\<close>

theorem wrap_text_fits:
  assumes "of_int (fst (get_text_size font text)) \<le> max_width"
  shows "wrap_text font text max_width = (text, snd (get_text_size font text))"
  using assms by (simp add: wrap_text_def split_beta)

theorem wrap_text_fits_witness:
  "of_int (fst (get_text_size fixed_font ''ab cd '')) \<le> subtitle_max_width 1080
   \<and> wrap_text fixed_font ''ab cd '' (subtitle_max_width 1080) = (''ab cd '', 20)"
proof -
  have h: "of_int (fst (get_text_size fixed_font ''ab cd '')) \<le> subtitle_max_width 1080"
    by (simp add: get_text_size_def fixed_font_def subtitle_max_width_def strip_def is_space_def)
  show ?thesis
    using h wrap_text_fits [OF h] by (simp add: get_text_size_def fixed_font_def strip_def is_space_def)
qed

text \<open>
  Claim C7 says that no line of the character pass is wider than the budget, a single
  character wider than the budget apart. The loop appends the character, measures, and
  closes the line with that character in it: for the text \<open>abcdefgh\<close>, ten units a
  character and a budget of thirty, the word pass gives up, and the character pass yields
  the lines \<open>abcd\<close> and \<open>efgh\<close>, forty wide each, and an empty last line that is
  counted in the height. The word pass closes a line with the text before the word.
\<close>

theorem char_pass_overflows:
  "\<not> of_int (fst (get_text_size fixed_font ''abcdefgh'')) \<le> (30::rat)
   \<and> word_pass fixed_font 30 (split_spaces ''abcdefgh'') [] [] = (False, [''abcdefgh ''])
   \<and> char_pass fixed_font 30 ''abcdefgh'' [] [] = [''abcd'', ''efgh'', []]
   \<and> wrap_text fixed_font ''abcdefgh'' 30 = (''abcd'' @ [CHR 0x0A] @ ''efgh'', 60)
   \<and> fst (get_text_size fixed_font ''abcd'') = 40
   \<and> fst (get_text_size fixed_font ''abc'') = 30"
  by (simp add: wrap_text_def get_text_size_def fixed_font_def strip_def is_space_def)

subsection \<open>preprocess_video\<close>

lemma preprocess_video_append:
  "preprocess_video env (xs @ ys) =
     (case preprocess_video env xs of
        Inl e \<Rightarrow> Inl e
      | Inr (xs', lx) \<Rightarrow>
          (case preprocess_video env ys of
             Inl e \<Rightarrow> Inl e
           | Inr (ys', ly) \<Rightarrow> Inr (xs' @ ys', lx @ ly)))"
  by (induction xs) (auto split: sum.splits prod.splits)

text \<open>
  Claim C5 as stated: a material below 480 pixels is excluded from the result. The list
  returned for one such material still holds it.
\<close>

theorem preprocess_video_keeps_low_resolution:
  "preprocess_video \<lparr>video_sizes = [(''a.mp4'', (320, 240))], image_sizes = [], image_urls = [],
       convert_fails = []\<rparr> [\<lparr>url = ''a.mp4''\<rparr>]
     = Inr ([\<lparr>url = ''a.mp4''\<rparr>], [Low_resolution 320 240])"
  by (simp add: preprocess_material_def open_clip_def)

text \<open>
  Claim C5, amended. A material whose width or height is below 480 pixels is logged and
  left unprocessed: it stays in the returned list, at its place and unchanged, and the
  warning is in the log. The rejection raises nothing: whether the call fails depends on
  the other materials alone.
\<close>

theorem preprocess_video_low_resolution:
  assumes "url material \<noteq> []"
    and "open_clip env (url material) = Some (width, height)"
    and "width < 480 \<or> height < 480"
  shows "preprocess_material env material = Inr (material, [Low_resolution width height])
       \<and> preprocess_video env (before @ material # after) =
           (case preprocess_video env before of
              Inl e \<Rightarrow> Inl e
            | Inr (before', lb) \<Rightarrow>
                (case preprocess_video env after of
                   Inl e \<Rightarrow> Inl e
                 | Inr (after', la) \<Rightarrow>
                     Inr (before' @ material # after', lb @ Low_resolution width height # la)))"
proof -
  have one: "preprocess_material env material = Inr (material, [Low_resolution width height])"
    using assms by (auto simp: preprocess_material_def)
  then show ?thesis
    by (auto simp: preprocess_video_append split: sum.splits prod.splits)
qed

theorem preprocess_video_low_resolution_witness:
  "url \<lparr>url = ''b.png''\<rparr> \<noteq> []
   \<and> open_clip \<lparr>video_sizes = [(''a.mp4'', (1280, 720))], image_sizes = [(''b.png'', (640, 360))],
         image_urls = [''b.png''], convert_fails = []\<rparr> ''b.png'' = Some (640, 360)
   \<and> preprocess_video \<lparr>video_sizes = [(''a.mp4'', (1280, 720))], image_sizes = [(''b.png'', (640, 360))],
         image_urls = [''b.png''], convert_fails = []\<rparr>
         [\<lparr>url = ''a.mp4''\<rparr>, \<lparr>url = ''b.png''\<rparr>, \<lparr>url = ''a.mp4''\<rparr>]
       = Inr ([\<lparr>url = ''a.mp4''\<rparr>, \<lparr>url = ''b.png''\<rparr>, \<lparr>url = ''a.mp4''\<rparr>], [Low_resolution 640 360])"
proof -
  let ?env = "\<lparr>video_sizes = [(''a.mp4'', (1280, 720))], image_sizes = [(''b.png'', (640, 360))],
         image_urls = [''b.png''], convert_fails = []\<rparr>"
  have h1: "url \<lparr>url = ''b.png''\<rparr> \<noteq> []" by simp
  have h2: "open_clip ?env (url \<lparr>url = ''b.png''\<rparr>) = Some (640, 360)"
    by (simp add: open_clip_def)
  have h3: "(640::nat) < 480 \<or> (360::nat) < 480" by simp
  have r: "preprocess_video ?env [\<lparr>url = ''a.mp4''\<rparr>] = Inr ([\<lparr>url = ''a.mp4''\<rparr>], [])"
    by (simp add: preprocess_material_def open_clip_def)
  show ?thesis
    using h2 r preprocess_video_low_resolution [OF h1 h2 h3, of "[\<lparr>url = ''a.mp4''\<rparr>]" "[\<lparr>url = ''a.mp4''\<rparr>]"]
    by simp
qed

subsection \<open>No processed clip\<close>

lemma process_clips_unreadable:
  assumes "\<forall>p \<in> set (map snd ips). map_of (videos env) p = None"
  shows "process_clips env mode m res ips st =
           Some (st\<lparr>logged := logged st @ map (\<lambda>p. Process_failed p IOError) (map snd ips)\<rparr>)"
  using assms
proof (induction ips arbitrary: st)
  case Nil
  then show ?case by simp
next
  case (Cons ip ips)
  obtain i p where ip: "ip = (i, p)" by (cases ip)
  from Cons.prems ip have "map_of (videos env) p = None" by simp
  moreover have "\<forall>p \<in> set (map snd ips). map_of (videos env) p = None"
    using Cons.prems by simp
  ultimately show ?case
    using Cons.IH ip by simp
qed

text \<open>
  Claim C6 as stated: with no processed clip \<open>combine_videos\<close> surfaces a failure.
  With one unreadable source it returns the output path, as a successful call does; the
  log holds the error of the source and the warning, and no output file is written.
\<close>

theorem combine_videos_returns_without_clips:
  "combine_videos \<lparr>videos = [], audios = [(''n.mp3'', 8)], write_fails = [], merge_fails = [],
       final_fails = False\<rparr> [] ''out.mp4'' [''a.mp4''] ''n.mp3'' (1080, 1920) Random 5
     = Some (Inr \<lparr>returned = ''out.mp4'', output_file = None,
                   job_log = [Process_failed ''a.mp4'' IOError, No_clips]\<rparr>)"
  by (simp add: combine_videos_def random_order_def merge_and_add_audio_def)

text \<open>
  Claim C6, amended. For a readable narration and a non-empty list of sources, the
  errors of the sources are logged in the loop, which goes on; when the list of processed
  clips is empty in the end, \<open>combine_videos\<close> logs a warning and returns the output
  path without raising and without writing the output file. In particular, when no source
  is readable, the log holds one error for each source, in order, and then the warning.
\<close>

theorem combine_videos_no_clips:
  assumes "map_of (audios env) audio_file = Some audio_duration"
    and "video_paths \<noteq> []"
  shows "(process_clips env video_concat_mode max_clip_duration resolution
            (zip [0 ..< length video_paths] video_paths)
            \<lparr>processed = [], total_duration = 0, temp_files = [], logged = []\<rparr> = Some st
          \<and> processed st = []
          \<longrightarrow> combine_videos env rnds combined_video_path video_paths audio_file resolution
                video_concat_mode max_clip_duration
              = Some (Inr \<lparr>returned = combined_video_path, output_file = None,
                            job_log = logged st @ [No_clips]\<rparr>))
       \<and> ((\<forall>p \<in> set video_paths. map_of (videos env) p = None)
          \<longrightarrow> combine_videos env rnds combined_video_path video_paths audio_file resolution
                video_concat_mode max_clip_duration
              = Some (Inr \<lparr>returned = combined_video_path, output_file = None,
                            job_log = map (\<lambda>p. Process_failed p IOError) video_paths @ [No_clips]\<rparr>))"
proof -
  have a: "combine_videos env rnds combined_video_path video_paths audio_file resolution
                video_concat_mode max_clip_duration
              = Some (Inr \<lparr>returned = combined_video_path, output_file = None,
                            job_log = logged st @ [No_clips]\<rparr>)"
    if "process_clips env video_concat_mode max_clip_duration resolution
            (zip [0 ..< length video_paths] video_paths)
            \<lparr>processed = [], total_duration = 0, temp_files = [], logged = []\<rparr> = Some st"
      and "processed st = []" for st
    using that assms
    by (simp add: combine_videos_def random_order_def merge_and_add_audio_def)
  have b: "process_clips env video_concat_mode max_clip_duration resolution
            (zip [0 ..< length video_paths] video_paths)
            \<lparr>processed = [], total_duration = 0, temp_files = [], logged = []\<rparr>
         = Some \<lparr>processed = [], total_duration = 0, temp_files = [],
                  logged = map (\<lambda>p. Process_failed p IOError) video_paths\<rparr>"
    if "\<forall>p \<in> set video_paths. map_of (videos env) p = None"
    using that by (subst process_clips_unreadable) simp_all
  show ?thesis
    using a a[OF b] by simp
qed

theorem combine_videos_no_clips_witness:
  "combine_videos \<lparr>videos = [(''b.mp4'', (6, 640, 480))], audios = [(''n.mp3'', 8)],
       write_fails = [(0, 0)], merge_fails = [], final_fails = False\<rparr> [] ''out.mp4''
       [''b.mp4'', ''a.mp4''] ''n.mp3'' (1080, 1920) Sequential 5
     = Some (Inr \<lparr>returned = ''out.mp4'', output_file = None,
                   job_log = [Process_failed ''b.mp4'' IOError, Process_failed ''a.mp4'' IOError, No_clips]\<rparr>)
   \<and> combine_videos \<lparr>videos = [(''b.mp4'', (6, 640, 480))], audios = [(''n.mp3'', 8)],
       write_fails = [(0, 0)], merge_fails = [], final_fails = False\<rparr> [] ''out.mp4''
       [''a.mp4'', ''c.mp4''] ''n.mp3'' (1080, 1920) Sequential 5
     = Some (Inr \<lparr>returned = ''out.mp4'', output_file = None,
                   job_log = [Process_failed ''a.mp4'' IOError, Process_failed ''c.mp4'' IOError, No_clips]\<rparr>)"
proof -
  let ?env = "\<lparr>videos = [(''b.mp4'', (6::rat, 640::nat, 480::nat))], audios = [(''n.mp3'', 8::rat)],
       write_fails = [(0::nat, 0::rat)], merge_fails = [], final_fails = False\<rparr>"
  let ?st = "\<lparr>processed = [], total_duration = 0, temp_files = [],
       logged = [Process_failed ''b.mp4'' IOError, Process_failed ''a.mp4'' IOError]\<rparr>"
  have h1: "map_of (audios ?env) ''n.mp3'' = Some 8" by simp
  have h2: "[''b.mp4'', ''a.mp4''] \<noteq> []" by simp
  have h2': "[''a.mp4'', ''c.mp4''] \<noteq> []" by simp
  have s: "split_loop [(0, 0)] Sequential 5 6 0 0
      \<lparr>processed = [], total_duration = 0, temp_files = [], logged = []\<rparr>
      = Some (Some IOError, \<lparr>processed = [], total_duration = 0, temp_files = [], logged = []\<rparr>)"
    by (subst split_loop.simps) simp
  have u: "[0 ..< 2] = [0, 1]" by (simp add: upt_conv_Cons)
  have h3: "process_clips ?env Sequential 5 (1080, 1920)
      (zip [0 ..< length [''b.mp4'', ''a.mp4'']] [''b.mp4'', ''a.mp4''])
      \<lparr>processed = [], total_duration = 0, temp_files = [], logged = []\<rparr> = Some ?st"
    by (simp add: u s fit_size_def py_int_def)
  have h4: "processed ?st = []" by simp
  have h5: "\<forall>p \<in> set [''a.mp4'', ''c.mp4'']. map_of (videos ?env) p = None" by simp
  show ?thesis
    using combine_videos_no_clips [OF h1 h2, of Sequential 5 "(1080, 1920)" ?st "[]" "''out.mp4''"]
      combine_videos_no_clips [OF h1 h2', of Sequential 5 "(1080, 1920)" ?st "[]" "''out.mp4''"]
      h3 h4 h5
    by simp
qed

end
